theory Spec2Isabelle
  imports Complex_Main "HOL-Library.Word"
begin

unbundle bit_operations_syntax

section \<open>The sbRIO UDP driver (src/src/sbrio_driver_udp.cpp)\<close>

text \<open>
  The driver keeps joint state in vectors, once per tick packs setpoints and motor
  enables into a datagram, waits for one datagram with a deadline, and unpacks it into
  positions, velocities and efforts.

  Conventions of the embedding:
  \<^item> a \<open>char\<close> is an \<open>8 word\<close>, a \<open>float\<close> is its 32-bit pattern (\<open>32 word\<close>);
  \<^item> the host is little-endian (the code reverses the bytes of a \<open>float\<close> in memory to
    obtain network order), so the bytes of a float in memory are least significant first;
  \<^item> a \<open>double\<close> is the exact value it holds; widening a float to a double is exact;
  \<^item> the narrowing cast \<open>(float)\<close> and the signedness of \<open>char\<close> belong to the compiler
    and are parameters (record \<open>config\<close>);
  \<^item> the header \<open>davinci_driver/sbrio_driver_udp.h\<close> is not part of the sources: the
    macro \<open>NUMBER_OF_JOINTS\<close> is a parameter, \<open>FLOAT_LENGTH\<close> is 4 (the code mixes it
    freely with \<open>sizeof(float)\<close>), the size of \<open>_rcv_buf\<close> is the length of the list
    that models it, and the counter \<open>_no_packet_received\<close>, which the source prints
    with \<open>%d\<close>, is a 32-bit \<open>int\<close> whose \<open>++\<close> wraps around (\<open>32 word\<close>, read with
    \<open>sint\<close>);
  \<^item> \<open>operator[]\<close> of a vector is unchecked. Reading a \<open>vector<bool>\<close> one past its end
    yields the bit that lies behind it, which the model takes as a parameter
    (\<open>vec_at\<close>). Reading a \<open>vector<std::string>\<close> past its end copies a string from
    whatever lies behind the vector, and the process may die there: the model takes what
    that read does as a parameter, and a process that dies has no next state (\<open>None\<close>);
  \<^item> the socket, the deadline timer and the io_service are outside the model: what
    they deliver to the driver (the result of \<open>connect\<close>, the handlers that
    \<open>run_one\<close> dispatches) is an input;
  \<^item> the functions run one after the other: \<open>connect\<close> has returned before the first
    pass of \<open>_loop\<close>, and no other thread writes the state during a pass.
\<close>

subsection \<open>Values\<close>

type_synonym byte = "8 word"

text \<open>A double by its value: sign and magnitude, an infinity, or a NaN.\<close>

datatype double = DFinite bool rat | DInf bool | DNaN

definition zero_double :: double where
  "zero_double = DFinite False 0"

text \<open>\<open>boost::system::error_code\<close>: \<open>success\<close> is the value that tests false.\<close>

datatype error_code = success | would_block | message_size | operation_aborted | other_error nat

text \<open>
  Modelled from the spec: the macro \<open>FLOAT_LENGTH\<close> is defined in the header
  \<open>davinci_driver/sbrio_driver_udp.h\<close>, which is missing. The specification gives the
  byte width per value as 4, as does the commented-out \<open>#define\<close> at the top of the source.
\<close>

definition FLOAT_LENGTH :: nat where
  "FLOAT_LENGTH = 4"

record config =
  number_of_joints :: nat
  float_cast :: "double \<Rightarrow> 32 word"
  char_signed :: bool

text \<open>\<open>static_cast<double>(f)\<close> for a float given by its IEEE-754 binary32 pattern.\<close>

definition float_to_double :: "32 word \<Rightarrow> double" where
  "float_to_double w =
     (let s = bit w 31;
          e = unat (drop_bit 23 w AND 0xFF);
          m = unat (w AND 0x7FFFFF)
      in if e = 255 then (if m = 0 then DInf s else DNaN)
         else if e = 0 then DFinite s (of_nat m / 2 ^ 149)
         else if 150 \<le> e then DFinite s (of_nat (2 ^ 23 + m) * 2 ^ (e - 150))
         else DFinite s (of_nat (2 ^ 23 + m) / 2 ^ (150 - e)))"

text \<open>The four bytes of a float in memory (\<open>(char*)&f\<close>), and back (\<open>memcpy(&f, ...)\<close>).\<close>

definition float_bytes :: "32 word \<Rightarrow> byte list" where
  "float_bytes f = [ucast f, ucast (drop_bit 8 f), ucast (drop_bit 16 f), ucast (drop_bit 24 f)]"

definition bytes_float :: "byte list \<Rightarrow> 32 word" where
  "bytes_float bs =
     ucast (bs ! 0) OR push_bit 8 (ucast (bs ! 1)) OR push_bit 16 (ucast (bs ! 2))
       OR push_bit 24 (ucast (bs ! 3))"

text \<open>\<open>memcpy(&buf[off], src, length src)\<close> inside the buffer.\<close>

definition memcpy :: "byte list \<Rightarrow> nat \<Rightarrow> byte list \<Rightarrow> byte list" where
  "memcpy buf off src = take off buf @ src @ drop (off + length src) buf"

text \<open>Unchecked \<open>v[i]\<close>: past the end it reads \<open>past\<close>.\<close>

definition vec_at :: "'a \<Rightarrow> 'a list \<Rightarrow> nat \<Rightarrow> 'a" where
  "vec_at past v i = (if i < length v then v ! i else past)"

subsection \<open>The bit codec\<close>

text \<open>
  \<open>_bool_to_char\<close>: \<open>for(i=0;i<b_vect.size();i++) c = (c << 1) + b_vect[b_vect.size()-i];\<close>
  The first index read is \<open>size()\<close>, one past the end; index 0 is never read.
\<close>

definition bool_to_char :: "bool \<Rightarrow> bool list \<Rightarrow> byte" where
  "bool_to_char past b_vect =
     fold (\<lambda>i c. push_bit 1 c + of_bool (vec_at past b_vect (length b_vect - i)))
       [0..<length b_vect] 0"

text \<open>
  \<open>_char_to_bool\<close>: \<open>b_vect[i] = c%2; c = (c >> 1);\<close> on its parameter \<open>b_vect\<close>, which
  is passed by value. The function returns nothing; the model returns the final value of
  the local vector, which no caller can see. \<open>c%2\<close> converted to bool is the lowest bit
  of \<open>c\<close>; \<open>>>\<close> keeps the sign of a signed \<open>char\<close>.
\<close>

definition char_shift_right :: "bool \<Rightarrow> byte \<Rightarrow> byte" where
  "char_shift_right sg c = (if sg then signed_drop_bit 1 c else drop_bit 1 c)"

definition char_to_bool_local :: "bool \<Rightarrow> byte \<Rightarrow> bool list \<Rightarrow> bool list" where
  "char_to_bool_local sg c b_vect =
     fst (fold (\<lambda>i (b, c). (b[i := bit c 0], char_shift_right sg c))
            [0..<length b_vect] (b_vect, c))"

text \<open>What the caller's vector is after \<open>_char_to_bool(c, v)\<close>: untouched.\<close>

definition char_to_bool :: "bool \<Rightarrow> byte \<Rightarrow> bool list \<Rightarrow> bool list" where
  "char_to_bool sg c v = (let b_vect = char_to_bool_local sg c v in v)"

subsection \<open>The float codec\<close>

text \<open>\<open>_binary_to_double\<close>: four bytes from \<open>index\<close>, reversed, read as a float, widened.\<close>

definition binary_to_double :: "byte list \<Rightarrow> nat \<Rightarrow> double" where
  "binary_to_double buf index =
     (let tmp_buf = [buf ! (index + 3), buf ! (index + 2), buf ! (index + 1), buf ! (index + 0)]
      in float_to_double (bytes_float tmp_buf))"

text \<open>The body of the setpoint loop of \<open>_loop\<close> for joint \<open>i\<close> (lines 159 to 165).\<close>

definition write_setpoint :: "config \<Rightarrow> double list \<Rightarrow> nat \<Rightarrow> byte list \<Rightarrow> byte list" where
  "write_setpoint cfg setpoints i send_buf =
     (let f = float_cast cfg (setpoints ! i);
          floatToConvert = float_bytes f;
          convertedFloat = map (\<lambda>j. floatToConvert ! (FLOAT_LENGTH - 1 - j)) [0..<FLOAT_LENGTH]
      in memcpy send_buf (i * 4) convertedFloat)"

subsection \<open>The driver object\<close>

text \<open>
  The members the claims speak of. \<open>loop_thread\<close> records that \<open>connect\<close> has started the
  thread that runs \<open>_loop\<close>. Private members \<open>_x\<close> are named \<open>s_x\<close>.
\<close>

record driver =
  s_connected :: bool
  s_initialized :: bool
  s_no_packet_received :: "32 word"
  s_ec :: error_code
  loop_thread :: bool
  rcv_buf :: "byte list"
  new_setpoints :: bool
  new_motor_enables :: bool
  joint_names :: "string list"
  motor_names :: "string list"
  joint_positions :: "double list"
  joint_velocities :: "double list"
  joint_efforts :: "double list"
  joint_setpoints :: "double list"
  joint_setpoints_mask :: "bool list"
  motors_enabled :: "bool list"
  motors_active :: "bool list"

text \<open>
  The constructor (lines 14 to 39). \<open>_rcv_buf\<close> is not initialised: its first contents
  are the argument.
\<close>

definition SbrioDriver_UDP :: "byte list \<Rightarrow> driver" where
  "SbrioDriver_UDP rcv0 =
     \<lparr> s_connected = False, s_initialized = False, s_no_packet_received = 0,
       s_ec = would_block, loop_thread = False, rcv_buf = rcv0,
       new_setpoints = False, new_motor_enables = False,
       joint_names = [], motor_names = [],
       joint_positions = [], joint_velocities = [], joint_efforts = [],
       joint_setpoints = [], joint_setpoints_mask = [],
       motors_enabled = [], motors_active = [] \<rparr>"

definition names_list :: "string list" where
  "names_list = [''p4_hand_roll'', ''p4_hand_pitch'', ''p4_instrument_slide'',
     ''p4_instrument_roll'', ''p4_instrument_pitch'']"

definition push_back :: "'a list \<Rightarrow> 'a \<Rightarrow> 'a list" where
  "push_back v x = v @ [x]"

text \<open>
  The read \<open>names_list[i]\<close> in the loop of \<open>connect\<close> (lines 96 and 97). Inside the vector
  it yields the name. Past the end its behaviour is undefined: \<open>stray\<close> is what the read
  does there, \<open>None\<close> when the process dies, \<open>Some name\<close> when it yields a string.
\<close>

definition read_name :: "string option \<Rightarrow> nat \<Rightarrow> string option" where
  "read_name stray i = (if i < length names_list then Some (names_list ! i) else stray)"

text \<open>
  The body of the loop \<open>for(i=0;i<NUMBER_OF_JOINTS+1;i++)\<close> of \<open>connect\<close>
  (lines 93 to 99).
\<close>

definition connect_step :: "string option \<Rightarrow> nat \<Rightarrow> driver \<Rightarrow> driver option" where
  "connect_step stray i s =
     (let s = s\<lparr> joint_positions := push_back (joint_positions s) zero_double \<rparr>;
          s = s\<lparr> joint_velocities := push_back (joint_velocities s) zero_double \<rparr>;
          s = s\<lparr> joint_efforts := push_back (joint_efforts s) zero_double \<rparr>
      in case read_name stray i of
           None \<Rightarrow> None
         | Some name \<Rightarrow>
             Some (s\<lparr> joint_names := push_back (joint_names s) name,
                      motor_names := push_back (motor_names s) name,
                      joint_setpoints_mask := push_back (joint_setpoints_mask s) False \<rparr>))"

text \<open>The loop itself: it goes on only while the process lives.\<close>

definition connect_loop :: "string option \<Rightarrow> nat \<Rightarrow> driver \<Rightarrow> driver option" where
  "connect_loop stray n s =
     fold (\<lambda>i r. case r of None \<Rightarrow> None | Some s \<Rightarrow> connect_step stray i s) [0..<n] (Some s)"

text \<open>
  \<open>connect\<close> (lines 70 to 127). \<open>error\<close> is what \<open>_socket.connect\<close> reports. The
  function returns \<open>void\<close>: the caller learns nothing but the new state. The result is
  \<open>None\<close> when the process dies in the loop.
\<close>

definition connect :: "config \<Rightarrow> string option \<Rightarrow> error_code \<Rightarrow> driver \<Rightarrow> driver option" where
  "connect cfg stray error s =
     (let s = (if error = success then s\<lparr> loop_thread := True, s_connected := True \<rparr> else s);
          s = s\<lparr> joint_names := names_list \<rparr>
      in case connect_loop stray (number_of_joints cfg + 1) s of
           None \<Rightarrow> None
         | Some s \<Rightarrow>
             (let s = s\<lparr> joint_setpoints := joint_setpoints s
                        @ [zero_double, zero_double, zero_double, zero_double, zero_double] \<rparr>;
                  s = s\<lparr> motors_enabled := motors_enabled s @ [True, True, True, True, True] \<rparr>;
                  s = s\<lparr> motors_active := motors_active s @ [True, True, True, True, True] \<rparr>;
                  s = s\<lparr> new_motor_enables := True \<rparr>;
                  s = s\<lparr> new_setpoints := True \<rparr>
              in Some (s\<lparr> s_initialized := True \<rparr>)))"

subsection \<open>Receiving\<close>

text \<open>The body of the loop of \<open>_handle_receive\<close> for joint \<open>i\<close> (lines 285 to 287).\<close>

definition store_joint :: "config \<Rightarrow> nat \<Rightarrow> driver \<Rightarrow> driver" where
  "store_joint cfg i s =
     (let vector_length = FLOAT_LENGTH * number_of_joints cfg
      in s\<lparr> joint_positions :=
               (joint_positions s)[i := binary_to_double (rcv_buf s) (i * FLOAT_LENGTH)],
            joint_velocities :=
               (joint_velocities s)[i := binary_to_double (rcv_buf s) (i * FLOAT_LENGTH + vector_length)],
            joint_efforts :=
               (joint_efforts s)[i := binary_to_double (rcv_buf s) (i * FLOAT_LENGTH + vector_length * 2)] \<rparr>)"

text \<open>
  \<open>_handle_receive\<close> (lines 261 to 293). The number of bytes transferred is an unnamed
  parameter of the source and is not looked at.
\<close>

definition handle_receive :: "config \<Rightarrow> error_code \<Rightarrow> driver \<Rightarrow> driver" where
  "handle_receive cfg error s =
     (let s = s\<lparr> s_ec := error \<rparr>
      in if error = success \<or> error = message_size then
           (let vector_length = FLOAT_LENGTH * number_of_joints cfg;
                s = fold (store_joint cfg) [0..<number_of_joints cfg] s
            in s\<lparr> motors_active :=
                   char_to_bool (char_signed cfg) (rcv_buf s ! (vector_length * 3)) (motors_active s) \<rparr>)
         else s)"

text \<open>
  What \<open>_io_service.run_one()\<close> can dispatch: the deadline actor \<open>_check_deadline\<close>,
  which touches only the timer and the socket, or the completion of the pending
  \<open>async_receive\<close>, which has put the datagram at the front of \<open>_rcv_buf\<close> and calls
  \<open>_handle_receive\<close> with the error code. A receive that the deadline actor cancelled
  completes with \<open>operation_aborted\<close> and no data.
\<close>

datatype handler = CheckDeadline | ReceiveDone error_code "byte list"

definition deliver :: "byte list \<Rightarrow> byte list \<Rightarrow> byte list" where
  "deliver data buf = take (length buf) data @ drop (length data) buf"

definition run_one :: "config \<Rightarrow> handler \<Rightarrow> driver \<Rightarrow> driver" where
  "run_one cfg h s =
     (case h of
        CheckDeadline \<Rightarrow> s
      | ReceiveDone error data \<Rightarrow> handle_receive cfg error (s\<lparr> rcv_buf := deliver data (rcv_buf s) \<rparr>))"

text \<open>
  \<open>do _io_service.run_one(); while (_ec == would_block);\<close> over the handlers that become
  ready, in order. When none is left the io_service waits forever: \<open>None\<close>.
\<close>

fun wait_loop :: "config \<Rightarrow> handler list \<Rightarrow> driver \<Rightarrow> driver option" where
  "wait_loop cfg [] s = None"
| "wait_loop cfg (h # hs) s =
     (let s' = run_one cfg h s
      in if s_ec s' = would_block then wait_loop cfg hs s' else Some s')"

text \<open>\<open>_receive\<close> (lines 231 to 256).\<close>

definition receive :: "config \<Rightarrow> handler list \<Rightarrow> driver \<Rightarrow> driver option" where
  "receive cfg hs s = wait_loop cfg hs (s\<lparr> s_ec := would_block \<rparr>)"

subsection \<open>The control loop\<close>

text \<open>
  What one pass of \<open>while (true)\<close> in \<open>_loop\<close> takes from outside: the contents of the
  uninitialised local \<open>send_buf\<close>, the bit that \<open>_bool_to_char\<close> reads past the end of
  \<open>motors_enabled\<close>, and the handlers that become ready during \<open>_receive\<close>.
\<close>

record tick_input =
  stack :: "nat \<Rightarrow> byte"
  past_end :: bool
  handlers :: "handler list"

text \<open>Lines 149 to 180: the buffer, whether it has new contents, the state.\<close>

definition fill_send_buf :: "config \<Rightarrow> tick_input \<Rightarrow> driver \<Rightarrow> byte list \<times> bool \<times> driver" where
  "fill_send_buf cfg inp s =
     (let send_buf = map (stack inp) [0..<number_of_joints cfg * FLOAT_LENGTH + 1];
          new_contents = False;
          (send_buf, new_contents, s) =
            (if new_setpoints s then
               (fold (write_setpoint cfg (joint_setpoints s)) [0..<number_of_joints cfg] send_buf,
                True, s\<lparr> new_setpoints := False \<rparr>)
             else (send_buf, new_contents, s));
          (send_buf, new_contents, s) =
            (if new_motor_enables s then
               (send_buf[number_of_joints cfg * 4 := bool_to_char (past_end inp) (motors_enabled s)],
                True, s\<lparr> new_motor_enables := False \<rparr>)
             else (send_buf, new_contents, s))
      in (send_buf, new_contents, s))"

text \<open>
  Lines 200 to 217, without the messages printed. The counter is a 32-bit \<open>int\<close>:
  \<open>_no_packet_received++\<close> at \<open>INT_MAX\<close> gives \<open>INT_MIN\<close>.
\<close>

definition error_handling :: "driver \<Rightarrow> driver" where
  "error_handling s =
     (if s_ec s \<noteq> success then s\<lparr> s_no_packet_received := s_no_packet_received s + 1 \<rparr>
      else s\<lparr> s_no_packet_received := 0 \<rparr>)"

text \<open>
  One pass of the loop: the datagrams sent (none or one) and the state before the sleep,
  or \<open>None\<close> when \<open>_receive\<close> does not return.
\<close>

definition loop_body :: "config \<Rightarrow> tick_input \<Rightarrow> driver \<Rightarrow> (byte list list \<times> driver) option" where
  "loop_body cfg inp s =
     (case fill_send_buf cfg inp s of
        (send_buf, new_contents, s1) \<Rightarrow>
          (case receive cfg (handlers inp) s1 of
             None \<Rightarrow> None
           | Some s2 \<Rightarrow> Some (if new_contents then [send_buf] else [], error_handling s2)))"

text \<open>The first passes of \<open>_loop\<close>, one per input; the loop itself never ends.\<close>

fun loop :: "config \<Rightarrow> tick_input list \<Rightarrow> driver \<Rightarrow> (byte list list \<times> driver) option" where
  "loop cfg [] s = Some ([], s)"
| "loop cfg (inp # inps) s =
     (case loop_body cfg inp s of
        None \<Rightarrow> None
      | Some (sent, s') \<Rightarrow>
          (case loop cfg inps s' of
             None \<Rightarrow> None
           | Some (sent', s'') \<Rightarrow> Some (sent @ sent', s'')))"

subsection \<open>Stating the results\<close>

text \<open>
  The wire format in the words of the specification: the big-endian float32 at offset \<open>k\<close>
  of a buffer is the 32-bit pattern whose most significant byte stands at \<open>k\<close>.
\<close>

definition be_float32 :: "byte list \<Rightarrow> nat \<Rightarrow> 32 word" where
  "be_float32 buf k = ucast (buf ! k) * 2 ^ 24 + ucast (buf ! (k + 1)) * 2 ^ 16 + ucast (buf ! (k + 2)) * 2 ^ 8 + ucast (buf ! (k + 3))"

text \<open>
  What the loop of \<open>_handle_receive\<close> leaves in one of the three vectors: entry \<open>i\<close>
  below \<open>n\<close> is overwritten with the float read at \<open>i * FLOAT_LENGTH + off\<close>.
\<close>

definition decode_block :: "byte list \<Rightarrow> nat \<Rightarrow> nat \<Rightarrow> double list \<Rightarrow> double list" where
  "decode_block buf n off v = fold (\<lambda>i v. v[i := binary_to_double buf (i * FLOAT_LENGTH + off)]) [0..<n] v"

text \<open>The state with the three vectors decoded from \<open>buf\<close>.\<close>

definition applied :: "config \<Rightarrow> byte list \<Rightarrow> driver \<Rightarrow> driver" where
  "applied cfg buf s =
     s\<lparr> joint_positions := decode_block buf (number_of_joints cfg) 0 (joint_positions s),
        joint_velocities := decode_block buf (number_of_joints cfg)
           (FLOAT_LENGTH * number_of_joints cfg) (joint_velocities s),
        joint_efforts := decode_block buf (number_of_joints cfg)
           (FLOAT_LENGTH * number_of_joints cfg * 2) (joint_efforts s) \<rparr>"

text \<open>
  The state after \<open>k\<close> passes in which the receive was cancelled by the deadline: the
  dirty flags are cleared, the error code is \<open>operation_aborted\<close>, the counter has grown.
\<close>

definition missed :: "nat \<Rightarrow> driver \<Rightarrow> driver" where
  "missed k s = s\<lparr> s_ec := operation_aborted, new_setpoints := False, new_motor_enables := False,
      s_no_packet_received := s_no_packet_received s + of_nat k \<rparr>"

subsection \<open>Concrete runs\<close>

text \<open>
  A configuration for the concrete runs below: five joints, a signed \<open>char\<close>, and a
  cast that is right for the setpoint \<open>+0.0\<close>, the only setpoint these runs hold; and the
  same with four joints, for which the loop of \<open>connect\<close> stays inside \<open>names_list\<close>.
\<close>

definition cast_of_zero :: "double \<Rightarrow> 32 word" where
  "cast_of_zero d = 0"

definition davinci :: config where
  "davinci = \<lparr> number_of_joints = 5, float_cast = cast_of_zero, char_signed = True \<rparr>"


text \<open>
  A receive buffer of 61 zero bytes; a 61-byte datagram whose five positions are 1.5
  (\<open>0x3FC00000\<close>); a datagram of 5 bytes and one of 4 bytes (\<open>0xBFC00000\<close> is -1.5).
\<close>

definition zeros_61 :: "byte list" where
  "zeros_61 =
     [0, 0, 0, 0, 0, 0, 0, 0, 0, 0, 0, 0, 0, 0, 0, 0,
     0, 0, 0, 0, 0, 0, 0, 0, 0, 0, 0, 0, 0, 0, 0, 0,
     0, 0, 0, 0, 0, 0, 0, 0, 0, 0, 0, 0, 0, 0, 0, 0,
     0, 0, 0, 0, 0, 0, 0, 0, 0, 0, 0, 0, 0]"

definition frame_1_5 :: "byte list" where
  "frame_1_5 =
     [0x3F, 0xC0, 0, 0, 0x3F, 0xC0, 0, 0, 0x3F, 0xC0, 0, 0, 0x3F, 0xC0, 0, 0,
     0x3F, 0xC0, 0, 0, 0, 0, 0, 0, 0, 0, 0, 0, 0, 0, 0, 0,
     0, 0, 0, 0, 0, 0, 0, 0, 0, 0, 0, 0, 0, 0, 0, 0,
     0, 0, 0, 0, 0, 0, 0, 0, 0, 0, 0, 0, 0]"

definition short_frame :: "byte list" where
  "short_frame = [0x3F, 0xC0, 0, 0, 0]"

definition tiny_frame :: "byte list" where
  "tiny_frame = [0xBF, 0xC0, 0, 0]"

text \<open>
  The driver after construction and a successful \<open>connect\<close> with five joints, in a run
  in which the read of \<open>names_list[5]\<close> yields the empty string (lemma \<open>connect_fresh\<close>).
\<close>

definition fresh :: driver where
  "fresh = \<lparr> s_connected = True, s_initialized = True, s_no_packet_received = 0,
       s_ec = would_block, loop_thread = True, rcv_buf = zeros_61,
       new_setpoints = True, new_motor_enables = True,
       joint_names = names_list @ names_list @ [[]], motor_names = names_list @ [[]],
       joint_positions = replicate 6 zero_double, joint_velocities = replicate 6 zero_double,
       joint_efforts = replicate 6 zero_double,
       joint_setpoints = replicate 5 zero_double, joint_setpoints_mask = replicate 6 False,
       motors_enabled = replicate 5 True, motors_active = replicate 5 True \<rparr>"

text \<open>
  A pass of the loop with a zeroed stack and a zero bit past the end of the enables;
  the handlers of a pass in which no datagram arrives: the deadline actor runs when the
  deadline is set and again when it expires, then the cancelled receive completes.
\<close>

definition tick :: "handler list \<Rightarrow> tick_input" where
  "tick hs = \<lparr> stack = (\<lambda>i. 0), past_end = False, handlers = hs \<rparr>"

definition silent :: "handler list" where
  "silent = [CheckDeadline, CheckDeadline, ReceiveDone operation_aborted []]"

text \<open>The datagram that the first pass after \<open>connect\<close> sends in these runs.\<close>

definition frame_0 :: "byte list" where
  "frame_0 = [0, 0, 0, 0, 0, 0, 0, 0, 0, 0, 0, 0, 0, 0, 0, 0, 0, 0, 0, 0, 15]"

section \<open>Lemmas\<close>

subsection \<open>Floats on the wire\<close>

lemma be4_or:
  fixes a b c d :: byte
  shows "ucast a * 2 ^ 24 + ucast b * 2 ^ 16 + ucast c * 2 ^ 8 + (ucast d :: 32 word)
       = push_bit 24 (ucast a) OR push_bit 16 (ucast b) OR push_bit 8 (ucast c) OR ucast d"
proof -
  let ?A = "push_bit 24 (ucast a) :: 32 word"
  let ?B = "push_bit 16 (ucast b) :: 32 word"
  let ?C = "push_bit 8 (ucast c) :: 32 word"
  let ?D = "ucast d :: 32 word"
  have 1: "?A + ?B = ?A OR ?B"
    by (rule disjunctive_add) (auto simp add: bit_simps dest: bit_imp_le_length)
  have 2: "(?A OR ?B) + ?C = (?A OR ?B) OR ?C"
    by (rule disjunctive_add) (auto simp add: bit_simps dest: bit_imp_le_length)
  have 3: "((?A OR ?B) OR ?C) + ?D = ((?A OR ?B) OR ?C) OR ?D"
    by (rule disjunctive_add) (auto simp add: bit_simps dest: bit_imp_le_length)
  have "?A + ?B + ?C + ?D = (?A OR ?B) + ?C + ?D"
    by (simp only: 1)
  also have "\<dots> = ((?A OR ?B) OR ?C) + ?D"
    by (simp only: 2)
  also have "\<dots> = ((?A OR ?B) OR ?C) OR ?D"
    by (rule 3)
  also have "\<dots> = ?A OR ?B OR ?C OR ?D"
    by (simp only: or.assoc)
  finally show ?thesis
    by (simp only: push_bit_eq_mult)
qed

lemma bytes_float_be: "bytes_float [buf ! (i + 3), buf ! (i + 2), buf ! (i + 1), buf ! (i + 0)] = be_float32 buf i"
  unfolding be_float32_def be4_or bytes_float_def
  by (rule bit_word_eqI) (auto simp add: bit_simps dest: bit_imp_le_length)

lemma binary_to_double_be: "binary_to_double buf i = float_to_double (be_float32 buf i)"
  by (simp only: binary_to_double_def Let_def bytes_float_be)

lemma be_float32_bytes: "be_float32 (rev (float_bytes f)) 0 = f"
  unfolding be_float32_def be4_or
proof (rule bit_word_eqI)
  fix n
  assume "n < LENGTH(32)"
  then consider "n < 8" | "8 \<le> n" "n < 16" | "16 \<le> n" "n < 24" | "24 \<le> n" "n < 32"
    by force
  then show "bit (push_bit 24 (ucast (rev (float_bytes f) ! 0)) OR
          push_bit 16 (ucast (rev (float_bytes f) ! (0 + 1))) OR
          push_bit 8 (ucast (rev (float_bytes f) ! (0 + 2))) OR
          (ucast (rev (float_bytes f) ! (0 + 3)) :: 32 word)) n = bit f n"
    by cases (auto simp add: float_bytes_def bit_simps)
qed

lemma be_float32_cong:
  "(\<And>j. j < 4 \<Longrightarrow> buf ! (k + j) = buf' ! (k' + j)) \<Longrightarrow> be_float32 buf k = be_float32 buf' k'"
proof -
  assume a: "\<And>j. j < 4 \<Longrightarrow> buf ! (k + j) = buf' ! (k' + j)"
  from a [of 0] a [of 1] a [of 2] a [of 3] show ?thesis
    by (simp add: be_float32_def)
qed

subsection \<open>The bits of \<open>_bool_to_char\<close>\<close>

text \<open>Bit \<open>k\<close> of the packed byte is element \<open>k + 1\<close> of the vector, for every vector.\<close>

lemma bit_step:
  "bit ((c::byte) * 2 + of_bool x) k \<longleftrightarrow> (if k = 0 then x else k < 8 \<and> bit c (k - 1))"
proof -
  have d: "bit (2 * c) k \<longleftrightarrow> k < 8 \<and> k \<noteq> 0 \<and> bit c (k - 1)"
    by (simp add: bit_double_iff)
  show ?thesis
  proof (cases x)
    case True
    then have e: "c * 2 + of_bool x = 1 + 2 * c" by simp
    have h: "bit (1 + 2 * c) k \<longleftrightarrow> bit (2 * c) k \<or> k = 0"
      by (rule even_bit_succ_iff) simp
    show ?thesis
      by (simp only: e h d) (use True in auto)
  next
    case False
    then have e: "c * 2 + of_bool x = 2 * c" by simp
    show ?thesis
      by (simp only: e d) (use False in auto)
  qed
qed

lemma bit_bool_to_char_fold:
  "m \<le> length b \<Longrightarrow>
   bit (fold (\<lambda>i c. push_bit 1 c + of_bool (vec_at past b (length b - i))) [0..<m] (0::byte)) k
   \<longleftrightarrow> k < 8 \<and> k < m \<and> vec_at past b (length b - m + 1 + k)"
proof (induction m arbitrary: k)
  case 0
  then show ?case by simp
next
  case (Suc m)
  note le = Suc.prems
  then have "m \<le> length b" by simp
  note IH = Suc.IH [OF this]
  show ?case
  proof (cases k)
    case 0
    have "length b - m = Suc (length b - Suc m)"
      using le by simp
    then show ?thesis using 0 by (simp add: bit_step)
  next
    case k: (Suc j)
    have "length b - m + 1 + j = length b - Suc m + 1 + Suc j"
      using le by simp
    then show ?thesis using IH [of j] k
      by (auto simp add: bit_step)
  qed
qed

lemma bit_bool_to_char:
  "bit (bool_to_char past b) k \<longleftrightarrow> k < 8 \<and> k < length b \<and> vec_at past b (k + 1)"
  using bit_bool_to_char_fold [of "length b" b past k] by (simp add: bool_to_char_def)

subsection \<open>The outgoing buffer\<close>

lemma length_memcpy:
  "off + length src \<le> length buf \<Longrightarrow> length (memcpy buf off src) = length buf"
  by (simp add: memcpy_def)

lemma nth_memcpy:
  "off + length src \<le> length buf \<Longrightarrow> k < length buf \<Longrightarrow>
   memcpy buf off src ! k = (if off \<le> k \<and> k < off + length src then src ! (k - off) else buf ! k)"
  by (auto simp add: memcpy_def nth_append)

lemma write_setpoint_eq:
  "write_setpoint cfg sp i buf = memcpy buf (i * 4) (rev (float_bytes (float_cast cfg (sp ! i))))"
  by (simp add: write_setpoint_def FLOAT_LENGTH_def float_bytes_def upt_rec Let_def)

lemma length_float_bytes: "length (float_bytes f) = 4"
  by (simp add: float_bytes_def)

lemma fold_write_setpoint:
  "4 * n \<le> length buf \<Longrightarrow>
   length (fold (write_setpoint cfg sp) [0..<n] buf) = length buf \<and>
   (\<forall>k<length buf. fold (write_setpoint cfg sp) [0..<n] buf ! k =
      (if k < 4 * n then rev (float_bytes (float_cast cfg (sp ! (k div 4)))) ! (k mod 4) else buf ! k))"
proof (induction n)
  case 0
  then show ?case by simp
next
  case (Suc n)
  then have le: "4 * n \<le> length buf" by simp
  let ?b = "fold (write_setpoint cfg sp) [0..<n] buf"
  from Suc.IH [OF le] have len: "length ?b = length buf"
    and nth: "\<And>k. k < length buf \<Longrightarrow> ?b ! k =
      (if k < 4 * n then rev (float_bytes (float_cast cfg (sp ! (k div 4)))) ! (k mod 4) else buf ! k)"
    by simp_all
  have fit: "n * 4 + length (rev (float_bytes (float_cast cfg (sp ! n)))) \<le> length ?b"
    using Suc.prems by (simp add: len length_float_bytes)
  have step: "fold (write_setpoint cfg sp) [0..<Suc n] buf
      = memcpy ?b (n * 4) (rev (float_bytes (float_cast cfg (sp ! n))))"
    by (simp add: write_setpoint_eq)
  have "length (fold (write_setpoint cfg sp) [0..<Suc n] buf) = length buf"
    unfolding step using fit by (simp add: length_memcpy len)
  moreover have "fold (write_setpoint cfg sp) [0..<Suc n] buf ! k =
      (if k < 4 * Suc n then rev (float_bytes (float_cast cfg (sp ! (k div 4)))) ! (k mod 4) else buf ! k)"
    if k: "k < length buf" for k
  proof -
    let ?src = "rev (float_bytes (float_cast cfg (sp ! n)))"
    have m: "memcpy ?b (n * 4) ?src ! k =
      (if n * 4 \<le> k \<and> k < n * 4 + 4 then ?src ! (k - n * 4) else ?b ! k)"
      using nth_memcpy [OF fit, of k] k by (simp add: len length_float_bytes)
    consider (before) "k < n * 4" | (inside) "n * 4 \<le> k" "k < n * 4 + 4" | (after) "n * 4 + 4 \<le> k"
      by linarith
    then show ?thesis
    proof cases
      case before
      then show ?thesis unfolding step m using nth [OF k] by simp
    next
      case inside
      then have "k div 4 = n" "k mod 4 = k - n * 4" by presburger+
      then show ?thesis unfolding step m using inside by simp
    next
      case after
      then show ?thesis unfolding step m using nth [OF k] by simp
    qed
  qed
  ultimately show ?case by blast
qed

lemma length_fold_write:
  "4 * n \<le> length buf \<Longrightarrow> length (fold (write_setpoint cfg sp) [0..<n] buf) = length buf"
  using fold_write_setpoint [of n buf cfg sp] by simp

lemma be_float32_fold_write:
  assumes "4 * n \<le> length buf" and "i < n"
  shows "be_float32 (fold (write_setpoint cfg sp) [0..<n] buf) (4 * i) = float_cast cfg (sp ! i)"
proof -
  let ?f = "float_cast cfg (sp ! i)"
  have "fold (write_setpoint cfg sp) [0..<n] buf ! (4 * i + j) = rev (float_bytes ?f) ! (0 + j)"
    if "j < 4" for j
  proof -
    have "4 * i + j < length buf" "4 * i + j < 4 * n" "(4 * i + j) div 4 = i" "(4 * i + j) mod 4 = j"
      using assms that by auto
    then show ?thesis
      using fold_write_setpoint [OF assms(1), of cfg sp] by simp
  qed
  then have "be_float32 (fold (write_setpoint cfg sp) [0..<n] buf) (4 * i)
      = be_float32 (rev (float_bytes ?f)) 0"
    by (rule be_float32_cong)
  then show ?thesis by (simp only: be_float32_bytes)
qed

lemma fill_send_buf_state:
  "snd (snd (fill_send_buf cfg inp s)) = s\<lparr> new_setpoints := False, new_motor_enables := False \<rparr>"
  by (simp add: fill_send_buf_def Let_def)

lemma fill_send_buf_new_contents:
  "fst (snd (fill_send_buf cfg inp s)) = (new_setpoints s \<or> new_motor_enables s)"
  by (simp add: fill_send_buf_def Let_def)

lemma length_fill_send_buf:
  "length (fst (fill_send_buf cfg inp s)) = 4 * number_of_joints cfg + 1"
  using fold_write_setpoint [of "number_of_joints cfg"
      "map (stack inp) [0..<number_of_joints cfg * FLOAT_LENGTH + 1]" cfg "joint_setpoints s"]
  by (simp add: fill_send_buf_def Let_def FLOAT_LENGTH_def)

lemma fill_send_buf_mask:
  "new_motor_enables s \<Longrightarrow>
   fst (fill_send_buf cfg inp s) ! (4 * number_of_joints cfg) = bool_to_char (past_end inp) (motors_enabled s)"
  by (simp add: fill_send_buf_def Let_def length_fold_write FLOAT_LENGTH_def mult.commute)

lemma fill_send_buf_setpoint:
  assumes "new_setpoints s" and "i < number_of_joints cfg"
  shows "be_float32 (fst (fill_send_buf cfg inp s)) (4 * i) = float_cast cfg (joint_setpoints s ! i)"
proof -
  let ?n = "number_of_joints cfg"
  let ?init = "map (stack inp) [0..<?n * FLOAT_LENGTH + 1]"
  let ?b = "fold (write_setpoint cfg (joint_setpoints s)) [0..<?n] ?init"
  have le: "4 * ?n \<le> length ?init" by (simp add: FLOAT_LENGTH_def)
  have "fst (fill_send_buf cfg inp s) ! (4 * i + j) = ?b ! (4 * i + j)" if "j < 4" for j
  proof -
    have "?n * 4 \<noteq> 4 * i + j" using that assms by simp
    then show ?thesis
      using assms(1) by (simp add: fill_send_buf_def Let_def)
  qed
  then have "be_float32 (fst (fill_send_buf cfg inp s)) (4 * i) = be_float32 ?b (4 * i)"
    by (rule be_float32_cong)
  then show ?thesis
    using be_float32_fold_write [OF le assms(2)] by simp
qed

subsection \<open>The incoming buffer\<close>

lemma length_decode_block: "length (decode_block buf n off v) = length v"
  unfolding decode_block_def by (induction n) simp_all

lemma nth_decode_block:
  "k < length v \<Longrightarrow>
   decode_block buf n off v ! k = (if k < n then binary_to_double buf (k * FLOAT_LENGTH + off) else v ! k)"
proof (induction n)
  case 0
  then show ?case by (simp add: decode_block_def)
next
  case (Suc n)
  have "decode_block buf (Suc n) off v
      = (decode_block buf n off v)[n := binary_to_double buf (n * FLOAT_LENGTH + off)]"
    by (simp add: decode_block_def)
  then show ?case using Suc
    by (auto simp add: length_decode_block nth_list_update less_Suc_eq)
qed

lemma fold_store_joint:
  "fold (store_joint cfg) [0..<m] s =
     s\<lparr> joint_positions := decode_block (rcv_buf s) m 0 (joint_positions s),
        joint_velocities := decode_block (rcv_buf s) m (FLOAT_LENGTH * number_of_joints cfg) (joint_velocities s),
        joint_efforts := decode_block (rcv_buf s) m (FLOAT_LENGTH * number_of_joints cfg * 2) (joint_efforts s) \<rparr>"
proof (induction m)
  case 0
  then show ?case by (simp add: decode_block_def)
next
  case (Suc m)
  then show ?case
    by (simp add: store_joint_def decode_block_def Let_def)
qed

lemma handle_receive_eq:
  "handle_receive cfg error s =
     (if error = success \<or> error = message_size then
        s\<lparr> s_ec := error,
           joint_positions := decode_block (rcv_buf s) (number_of_joints cfg) 0 (joint_positions s),
           joint_velocities := decode_block (rcv_buf s) (number_of_joints cfg)
              (FLOAT_LENGTH * number_of_joints cfg) (joint_velocities s),
           joint_efforts := decode_block (rcv_buf s) (number_of_joints cfg)
              (FLOAT_LENGTH * number_of_joints cfg * 2) (joint_efforts s) \<rparr>
      else s\<lparr> s_ec := error \<rparr>)"
  by (simp add: handle_receive_def fold_store_joint char_to_bool_def Let_def)

lemma deliver_nth:
  "k < length data \<Longrightarrow> k < length buf \<Longrightarrow> deliver data buf ! k = data ! k"
  by (simp add: deliver_def nth_append)

lemma deliver_nothing: "deliver [] buf = buf"
  by (simp add: deliver_def)

lemma be_float32_deliver:
  "k + 3 < length data \<Longrightarrow> k + 3 < length buf \<Longrightarrow> be_float32 (deliver data buf) k = be_float32 data k"
  by (rule be_float32_cong) (simp add: deliver_nth)

subsection \<open>Waiting for the receive\<close>

lemma wait_loop_Some:
  "wait_loop cfg hs s = Some s' \<Longrightarrow> s_ec s = would_block \<Longrightarrow>
   s_ec s' \<noteq> would_block \<and>
   s' = (if s_ec s' = success \<or> s_ec s' = message_size then applied cfg (rcv_buf s') s else s)
          \<lparr> s_ec := s_ec s', rcv_buf := rcv_buf s' \<rparr>"
proof (induction hs arbitrary: s)
  case Nil
  then show ?case by simp
next
  case (Cons h hs)
  let ?s1 = "run_one cfg h s"
  show ?case
  proof (cases "s_ec ?s1 = would_block")
    case True
    then have w: "wait_loop cfg hs ?s1 = Some s'"
      using Cons.prems(1) by (simp add: Let_def)
    have s1: "?s1 = s\<lparr> rcv_buf := rcv_buf ?s1 \<rparr>"
      using True Cons.prems(2)
      by (cases h) (auto simp add: run_one_def handle_receive_eq split: if_splits)
    from Cons.IH [OF w True] have ec: "s_ec s' \<noteq> would_block"
      and eq: "s' = (if s_ec s' = success \<or> s_ec s' = message_size then applied cfg (rcv_buf s') ?s1 else ?s1)
          \<lparr> s_ec := s_ec s', rcv_buf := rcv_buf s' \<rparr>"
      by simp_all
    have "(if s_ec s' = success \<or> s_ec s' = message_size then applied cfg (rcv_buf s') ?s1 else ?s1)
          \<lparr> s_ec := s_ec s', rcv_buf := rcv_buf s' \<rparr>
        = (if s_ec s' = success \<or> s_ec s' = message_size then applied cfg (rcv_buf s') s else s)
          \<lparr> s_ec := s_ec s', rcv_buf := rcv_buf s' \<rparr>"
      by (subst s1, subst (2) s1) (simp add: applied_def)
    with ec eq show ?thesis by simp
  next
    case False
    then have s': "s' = ?s1"
      using Cons.prems(1) by (simp add: Let_def)
    show ?thesis
      using False Cons.prems(2) unfolding s'
      by (cases h) (auto simp add: run_one_def handle_receive_eq applied_def)
  qed
qed

lemma wait_loop_completes:
  "s_ec s = would_block \<Longrightarrow> error \<noteq> would_block \<Longrightarrow>
   wait_loop cfg (replicate k CheckDeadline @ ReceiveDone error data # rest) s =
     Some (handle_receive cfg error (s\<lparr> rcv_buf := deliver data (rcv_buf s) \<rparr>))"
  by (induction k) (simp_all add: run_one_def handle_receive_eq Let_def)

subsection \<open>One pass and many\<close>

lemma loop_body_Some:
  assumes "loop_body cfg inp s = Some (sent, s')"
  shows "s_ec s' \<noteq> would_block \<and>
    sent = (if new_setpoints s \<or> new_motor_enables s then [fst (fill_send_buf cfg inp s)] else []) \<and>
    s' = (if s_ec s' = success \<or> s_ec s' = message_size then applied cfg (rcv_buf s') s else s)
          \<lparr> s_ec := s_ec s', rcv_buf := rcv_buf s',
            new_setpoints := False, new_motor_enables := False,
            s_no_packet_received := (if s_ec s' = success then 0 else s_no_packet_received s + 1) \<rparr>"
proof -
  obtain send_buf new_contents s1 where f: "fill_send_buf cfg inp s = (send_buf, new_contents, s1)"
    by (cases "fill_send_buf cfg inp s") auto
  have s1: "s1 = s\<lparr> new_setpoints := False, new_motor_enables := False \<rparr>"
    using fill_send_buf_state [of cfg inp s] f by simp
  have nc: "new_contents = (new_setpoints s \<or> new_motor_enables s)"
    using fill_send_buf_new_contents [of cfg inp s] f by simp
  obtain s2 where r: "wait_loop cfg (handlers inp) (s1\<lparr> s_ec := would_block \<rparr>) = Some s2"
    and res: "sent = (if new_contents then [send_buf] else [])" "s' = error_handling s2"
    using assms f by (auto simp add: loop_body_def receive_def split: option.splits)
  define e where "e = s_ec s2"
  define b where "b = rcv_buf s2"
  let ?S = "(if e = success \<or> e = message_size
               then applied cfg b (s1\<lparr> s_ec := would_block \<rparr>) else s1\<lparr> s_ec := would_block \<rparr>)
          \<lparr> s_ec := e, rcv_buf := b \<rparr>"
  let ?T = "(if e = success \<or> e = message_size then applied cfg b s else s)
          \<lparr> s_ec := e, rcv_buf := b,
            new_setpoints := False, new_motor_enables := False,
            s_no_packet_received := (if e = success then 0 else s_no_packet_received s + 1) \<rparr>"
  from wait_loop_Some [OF r] have ec: "e \<noteq> would_block" and s2: "s2 = ?S"
    unfolding e_def b_def by simp_all
  have "error_handling ?S = ?T"
    by (simp add: s1 applied_def error_handling_def)
  then have T: "s' = ?T"
    unfolding res(2) by (subst s2)
  have e: "s_ec s' = e" and b: "rcv_buf s' = b"
    by (subst T, simp)+
  show ?thesis
    unfolding e b using ec res(1) nc f T by simp
qed

lemma loop_body_completes:
  assumes "handlers inp = replicate k CheckDeadline @ ReceiveDone error data # rest"
    and "error \<noteq> would_block"
  shows "loop_body cfg inp s =
     Some (if new_setpoints s \<or> new_motor_enables s then [fst (fill_send_buf cfg inp s)] else [],
           (if error = success \<or> error = message_size
            then applied cfg (deliver data (rcv_buf s)) s else s)
           \<lparr> s_ec := error, rcv_buf := deliver data (rcv_buf s),
             new_setpoints := False, new_motor_enables := False,
             s_no_packet_received := (if error = success then 0 else s_no_packet_received s + 1) \<rparr>)"
proof -
  obtain send_buf new_contents s1 where f: "fill_send_buf cfg inp s = (send_buf, new_contents, s1)"
    by (cases "fill_send_buf cfg inp s") auto
  have s1: "s1 = s\<lparr> new_setpoints := False, new_motor_enables := False \<rparr>"
    using fill_send_buf_state [of cfg inp s] f by simp
  have nc: "new_contents = (new_setpoints s \<or> new_motor_enables s)"
    using fill_send_buf_new_contents [of cfg inp s] f by simp
  have w: "receive cfg (handlers inp) s1 =
      Some (handle_receive cfg error (s1\<lparr> s_ec := would_block, rcv_buf := deliver data (rcv_buf s1) \<rparr>))"
    unfolding receive_def assms(1)
    by (subst wait_loop_completes) (simp_all add: assms(2))
  show ?thesis
    by (simp add: loop_body_def f w [unfolded s1] nc s1 error_handling_def handle_receive_eq applied_def)
qed

lemma loop_body_missed:
  assumes "handlers inp = replicate k CheckDeadline @ [ReceiveDone operation_aborted []]"
  shows "loop_body cfg inp s =
     Some (if new_setpoints s \<or> new_motor_enables s then [fst (fill_send_buf cfg inp s)] else [],
           missed 1 s)"
  by (simp add: loop_body_completes [OF assms] deliver_nothing missed_def)

lemma loop_missed:
  assumes "handlers inp = replicate k CheckDeadline @ [ReceiveDone operation_aborted []]"
  shows "loop cfg (replicate m inp) (missed j s) = Some ([], missed (j + m) s)"
proof (induction m arbitrary: j)
  case 0
  then show ?case by simp
next
  case (Suc m)
  have "loop_body cfg inp (missed j s) = Some ([], missed (Suc j) s)"
    by (simp add: loop_body_missed [OF assms]) (simp add: missed_def ac_simps)
  then show ?case
    using Suc [of "Suc j"] by simp
qed

lemma loop_body_connected:
  "loop_body cfg inp s = Some (sent, s') \<Longrightarrow> s_connected s' = s_connected s"
  by (drule loop_body_Some, erule conjE, erule conjE, erule ssubst) (simp add: applied_def)

lemma loop_connected:
  "loop cfg inps s = Some (sent, s') \<Longrightarrow> s_connected s' = s_connected s"
proof (induction inps arbitrary: s sent)
  case Nil
  then show ?case by simp
next
  case (Cons inp inps)
  from Cons.prems obtain sent1 s1 sent2 where
    b: "loop_body cfg inp s = Some (sent1, s1)" and r: "loop cfg inps s1 = Some (sent2, s')"
    by (auto split: option.splits)
  from Cons.IH [OF r] loop_body_connected [OF b] show ?case by simp
qed

subsection \<open>\<open>connect\<close>\<close>

lemma connect_loop_Suc:
  "connect_loop stray (Suc m) s =
     (case connect_loop stray m s of None \<Rightarrow> None | Some s' \<Rightarrow> connect_step stray m s')"
  by (simp add: connect_loop_def)

lemma connect_loop_returns:
  assumes "\<forall>i<m. read_name stray i \<noteq> None"
  shows "connect_loop stray m s =
     Some (s\<lparr> joint_positions := joint_positions s @ replicate m zero_double,
        joint_velocities := joint_velocities s @ replicate m zero_double,
        joint_efforts := joint_efforts s @ replicate m zero_double,
        joint_names := joint_names s @ map (\<lambda>i. the (read_name stray i)) [0..<m],
        motor_names := motor_names s @ map (\<lambda>i. the (read_name stray i)) [0..<m],
        joint_setpoints_mask := joint_setpoints_mask s @ replicate m False \<rparr>)"
  using assms
proof (induction m)
  case 0
  then show ?case by (simp add: connect_loop_def)
next
  case (Suc m)
  from Suc.prems obtain name where n: "read_name stray m = Some name"
    by auto
  have "\<forall>i<m. read_name stray i \<noteq> None"
    using Suc.prems by simp
  from Suc.IH [OF this] show ?case
    by (simp add: connect_loop_Suc connect_step_def n push_back_def replicate_append_same Let_def)
qed

lemma connect_loop_dies:
  "length names_list < m \<Longrightarrow> connect_loop None m s = None"
proof (induction m)
  case 0
  then show ?case by simp
next
  case (Suc m)
  show ?case
  proof (cases "length names_list < m")
    case True
    from Suc.IH [OF this] show ?thesis
      by (simp add: connect_loop_Suc)
  next
    case False
    then have m: "m = length names_list"
      using Suc.prems by simp
    have "\<forall>i<m. read_name None i \<noteq> None"
      by (simp add: read_name_def m)
    from connect_loop_returns [OF this] show ?thesis
      by (simp add: connect_loop_Suc connect_step_def read_name_def m Let_def)
  qed
qed

lemma connect_returns:
  assumes "\<forall>i\<le>number_of_joints cfg. read_name stray i \<noteq> None"
  shows "connect cfg stray error s =
     Some (s\<lparr> loop_thread := (error = success \<or> loop_thread s),
        s_connected := (error = success \<or> s_connected s),
        joint_positions := joint_positions s @ replicate (number_of_joints cfg + 1) zero_double,
        joint_velocities := joint_velocities s @ replicate (number_of_joints cfg + 1) zero_double,
        joint_efforts := joint_efforts s @ replicate (number_of_joints cfg + 1) zero_double,
        joint_names := names_list @ map (\<lambda>i. the (read_name stray i)) [0..<number_of_joints cfg + 1],
        motor_names := motor_names s @ map (\<lambda>i. the (read_name stray i)) [0..<number_of_joints cfg + 1],
        joint_setpoints_mask := joint_setpoints_mask s @ replicate (number_of_joints cfg + 1) False,
        joint_setpoints := joint_setpoints s @ replicate 5 zero_double,
        motors_enabled := motors_enabled s @ replicate 5 True,
        motors_active := motors_active s @ replicate 5 True,
        new_motor_enables := True, new_setpoints := True, s_initialized := True \<rparr>)"
proof -
  have r: "\<forall>i<number_of_joints cfg + 1. read_name stray i \<noteq> None"
    using assms by simp
  show ?thesis
    unfolding connect_def Let_def connect_loop_returns [OF r]
    by (cases "error = success") (simp_all add: numeral_eq_Suc)
qed

lemma connect_dies:
  "length names_list \<le> number_of_joints cfg \<Longrightarrow> connect cfg None error s = None"
  by (simp add: connect_def Let_def connect_loop_dies)

lemma connect_Some:
  assumes "connect cfg stray error s = Some s'"
  shows "s' = s\<lparr> loop_thread := (error = success \<or> loop_thread s),
        s_connected := (error = success \<or> s_connected s),
        joint_positions := joint_positions s @ replicate (number_of_joints cfg + 1) zero_double,
        joint_velocities := joint_velocities s @ replicate (number_of_joints cfg + 1) zero_double,
        joint_efforts := joint_efforts s @ replicate (number_of_joints cfg + 1) zero_double,
        joint_names := names_list @ map (\<lambda>i. the (read_name stray i)) [0..<number_of_joints cfg + 1],
        motor_names := motor_names s @ map (\<lambda>i. the (read_name stray i)) [0..<number_of_joints cfg + 1],
        joint_setpoints_mask := joint_setpoints_mask s @ replicate (number_of_joints cfg + 1) False,
        joint_setpoints := joint_setpoints s @ replicate 5 zero_double,
        motors_enabled := motors_enabled s @ replicate 5 True,
        motors_active := motors_active s @ replicate 5 True,
        new_motor_enables := True, new_setpoints := True, s_initialized := True \<rparr>"
proof (cases "stray = None \<and> length names_list \<le> number_of_joints cfg")
  case True
  then show ?thesis
    using assms by (simp add: connect_dies)
next
  case False
  then have "\<forall>i\<le>number_of_joints cfg. read_name stray i \<noteq> None"
    by (auto simp add: read_name_def)
  from connect_returns [OF this, of error s] assms show ?thesis
    by simp
qed

lemma connect_fresh:
  "connect davinci (Some []) success (SbrioDriver_UDP zeros_61) = Some fresh"
proof -
  have "\<forall>i\<le>number_of_joints davinci. read_name (Some []) i \<noteq> None"
    by (simp add: read_name_def)
  from connect_returns [OF this] show ?thesis
    by (simp add: fresh_def SbrioDriver_UDP_def davinci_def names_list_def read_name_def
        upt_rec numeral_eq_Suc)
qed

lemma missed_3_fresh:
  "missed 3 fresh = \<lparr> s_connected = True, s_initialized = True, s_no_packet_received = 3,
       s_ec = operation_aborted, loop_thread = True, rcv_buf = zeros_61,
       new_setpoints = False, new_motor_enables = False,
       joint_names = names_list @ names_list @ [[]], motor_names = names_list @ [[]],
       joint_positions = replicate 6 zero_double, joint_velocities = replicate 6 zero_double,
       joint_efforts = replicate 6 zero_double,
       joint_setpoints = replicate 5 zero_double, joint_setpoints_mask = replicate 6 False,
       motors_enabled = replicate 5 True, motors_active = replicate 5 True \<rparr>"
  by (simp add: missed_def fresh_def)

lemma silent_handlers:
  "handlers (tick silent) = replicate 2 CheckDeadline @ [ReceiveDone operation_aborted []]"
  by (simp add: tick_def silent_def numeral_eq_Suc)

lemma first_frame: "fst (fill_send_buf davinci (tick silent) fresh) = frame_0"
  by (simp add: fill_send_buf_def fresh_def davinci_def tick_def frame_0_def write_setpoint_eq
      cast_of_zero_def float_bytes_def memcpy_def bool_to_char_def vec_at_def FLOAT_LENGTH_def
      zero_double_def upt_rec numeral_eq_Suc)

lemma silent_run:
  "loop davinci (replicate (Suc m) (tick silent)) fresh = Some ([frame_0], missed (Suc m) fresh)"
proof -
  have 1: "loop_body davinci (tick silent) fresh = Some ([frame_0], missed 1 fresh)"
    by (simp add: loop_body_missed [OF silent_handlers] first_frame) (simp add: fresh_def)
  have 2: "loop davinci (replicate m (tick silent)) (missed 1 fresh) = Some ([], missed (Suc m) fresh)"
    using loop_missed [OF silent_handlers, of davinci m 1 fresh] by simp
  from 1 2 show ?thesis by simp
qed

lemma silent_25:
  "loop davinci (replicate 25 (tick silent)) fresh = Some ([frame_0], missed 25 fresh)"
  using silent_run [of 24] by simp

lemma silent_3:
  "loop davinci (replicate 3 (tick silent)) fresh = Some ([frame_0], missed 3 fresh)"
  using silent_run [of 2] by (simp add: numeral_eq_Suc)

lemma f32_1_5: "float_to_double 0x3FC00000 = DFinite False (3 / 2)"
  by (simp add: float_to_double_def)

lemma f32_minus_1_5: "float_to_double 0xBFC00000 = DFinite True (3 / 2)"
  by (simp add: float_to_double_def)

lemma f32_0: "float_to_double 0 = DFinite False 0"
  by (simp add: float_to_double_def)

lemma deliver_frame_1_5: "deliver frame_1_5 zeros_61 = frame_1_5"
  by (simp add: deliver_def frame_1_5_def zeros_61_def)

lemma decode_block_5:
  "decode_block buf 5 off [a, b, c, d, e, f] =
     [binary_to_double buf off, binary_to_double buf (4 + off), binary_to_double buf (8 + off),
      binary_to_double buf (12 + off), binary_to_double buf (16 + off), f]"
  by (simp add: decode_block_def FLOAT_LENGTH_def upt_rec numeral_eq_Suc)

lemma frame_1_5_decoded:
  "binary_to_double (frame_1_5) 0 = DFinite False (3 / 2)"
  "binary_to_double (frame_1_5) 4 = DFinite False (3 / 2)"
  "binary_to_double (frame_1_5) 8 = DFinite False (3 / 2)"
  "binary_to_double (frame_1_5) 12 = DFinite False (3 / 2)"
  "binary_to_double (frame_1_5) 16 = DFinite False (3 / 2)"
  "binary_to_double (frame_1_5) 20 = DFinite False 0"
  "binary_to_double (frame_1_5) 24 = DFinite False 0"
  "binary_to_double (frame_1_5) 28 = DFinite False 0"
  "binary_to_double (frame_1_5) 32 = DFinite False 0"
  "binary_to_double (frame_1_5) 36 = DFinite False 0"
  "binary_to_double (frame_1_5) 40 = DFinite False 0"
  "binary_to_double (frame_1_5) 44 = DFinite False 0"
  "binary_to_double (frame_1_5) 48 = DFinite False 0"
  "binary_to_double (frame_1_5) 52 = DFinite False 0"
  "binary_to_double (frame_1_5) 56 = DFinite False 0"
  by (simp_all add: binary_to_double_def frame_1_5_def bytes_float_def f32_1_5 f32_0)

lemma short_frame_decoded:
  "binary_to_double (short_frame @ drop 5 zeros_61) 0 = DFinite False (3 / 2)"
  "binary_to_double (short_frame @ drop 5 zeros_61) 4 = DFinite False 0"
  "binary_to_double (short_frame @ drop 5 zeros_61) 8 = DFinite False 0"
  "binary_to_double (short_frame @ drop 5 zeros_61) 12 = DFinite False 0"
  "binary_to_double (short_frame @ drop 5 zeros_61) 16 = DFinite False 0"
  "binary_to_double (short_frame @ drop 5 zeros_61) 20 = DFinite False 0"
  "binary_to_double (short_frame @ drop 5 zeros_61) 24 = DFinite False 0"
  "binary_to_double (short_frame @ drop 5 zeros_61) 28 = DFinite False 0"
  "binary_to_double (short_frame @ drop 5 zeros_61) 32 = DFinite False 0"
  "binary_to_double (short_frame @ drop 5 zeros_61) 36 = DFinite False 0"
  "binary_to_double (short_frame @ drop 5 zeros_61) 40 = DFinite False 0"
  "binary_to_double (short_frame @ drop 5 zeros_61) 44 = DFinite False 0"
  "binary_to_double (short_frame @ drop 5 zeros_61) 48 = DFinite False 0"
  "binary_to_double (short_frame @ drop 5 zeros_61) 52 = DFinite False 0"
  "binary_to_double (short_frame @ drop 5 zeros_61) 56 = DFinite False 0"
  by (simp_all add: binary_to_double_def short_frame_def zeros_61_def bytes_float_def f32_1_5 f32_0)

lemma tiny_frame_decoded:
  "binary_to_double (tiny_frame @ drop 4 zeros_61) 0 = DFinite True (3 / 2)"
  "binary_to_double (tiny_frame @ drop 4 zeros_61) 4 = DFinite False 0"
  "binary_to_double (tiny_frame @ drop 4 zeros_61) 8 = DFinite False 0"
  "binary_to_double (tiny_frame @ drop 4 zeros_61) 12 = DFinite False 0"
  "binary_to_double (tiny_frame @ drop 4 zeros_61) 16 = DFinite False 0"
  "binary_to_double (tiny_frame @ drop 4 zeros_61) 20 = DFinite False 0"
  "binary_to_double (tiny_frame @ drop 4 zeros_61) 24 = DFinite False 0"
  "binary_to_double (tiny_frame @ drop 4 zeros_61) 28 = DFinite False 0"
  "binary_to_double (tiny_frame @ drop 4 zeros_61) 32 = DFinite False 0"
  "binary_to_double (tiny_frame @ drop 4 zeros_61) 36 = DFinite False 0"
  "binary_to_double (tiny_frame @ drop 4 zeros_61) 40 = DFinite False 0"
  "binary_to_double (tiny_frame @ drop 4 zeros_61) 44 = DFinite False 0"
  "binary_to_double (tiny_frame @ drop 4 zeros_61) 48 = DFinite False 0"
  "binary_to_double (tiny_frame @ drop 4 zeros_61) 52 = DFinite False 0"
  "binary_to_double (tiny_frame @ drop 4 zeros_61) 56 = DFinite False 0"
  by (simp_all add: binary_to_double_def tiny_frame_def zeros_61_def bytes_float_def
      f32_minus_1_5 f32_0)

lemma applied_frame_1_5:
  "applied davinci frame_1_5 (missed 3 fresh) =
      (missed 3 fresh)\<lparr> joint_positions := [DFinite False (3 / 2), DFinite False (3 / 2),
         DFinite False (3 / 2), DFinite False (3 / 2), DFinite False (3 / 2), DFinite False 0] \<rparr>"
proof -
  have z: "replicate 6 zero_double = [DFinite False 0, DFinite False 0, DFinite False 0,
           DFinite False 0, DFinite False 0, DFinite False 0]"
    by (simp add: zero_double_def numeral_eq_Suc)
  show ?thesis
    by (simp add: applied_def missed_3_fresh davinci_def z decode_block_5 FLOAT_LENGTH_def
        frame_1_5_decoded)
qed

section \<open>The claims\<close>

text \<open>
  C1. Encoding produces a frame of \<open>4N+1\<close> bytes in which the setpoint of joint \<open>i\<close> is a
  big-endian float32 at offset \<open>4*i\<close> and whose last byte is a bitmask with bit \<open>i\<close> equal to
  \<open>enabled[i]\<close>; for five joints, all enabled, the last byte is 31.

  The code does not do this. \<open>_bool_to_char\<close> reads the indices \<open>size()\<close> down to 1, so
  bit \<open>k\<close> of the byte is \<open>enabled[k+1]\<close>, the top bit comes from past the end of the
  vector, and \<open>enabled[0]\<close> is never sent. With only joint 0 enabled the last byte of the
  21-byte frame is 0 or 16, never 1; with all five enabled it is 15 or 31, according to the
  bit that lies behind the vector. (The length of the frame and the setpoints are as the
  claim says: \<open>length_fill_send_buf\<close>, \<open>fill_send_buf_setpoint\<close>.)
\<close>

theorem C1_enable_mask_is_shifted:
  "(let (send_buf, new_contents, s') =
      fill_send_buf (cfg\<lparr> number_of_joints := 5 \<rparr>) inp
        (s\<lparr> new_motor_enables := True, motors_enabled := [True, False, False, False, False] \<rparr>)
    in new_contents \<and> length send_buf = 21 \<and> send_buf ! 20 = (if past_end inp then 16 else 0)) \<and>
   (let (send_buf, new_contents, s') =
      fill_send_buf (cfg\<lparr> number_of_joints := 5 \<rparr>) inp
        (s\<lparr> new_motor_enables := True, motors_enabled := [True, True, True, True, True] \<rparr>)
    in new_contents \<and> length send_buf = 21 \<and> send_buf ! 20 = (if past_end inp then 31 else 15))"
proof -
  have a: "bool_to_char past [True, False, False, False, False] = (if past then 16 else 0)" for past
    by (simp add: bool_to_char_def vec_at_def upt_rec)
  have b: "bool_to_char past [True, True, True, True, True] = (if past then 31 else 15)" for past
    by (simp add: bool_to_char_def vec_at_def upt_rec)
  have m: "fst (fill_send_buf (cfg\<lparr> number_of_joints := 5 \<rparr>) inp (s\<lparr> new_motor_enables := True, motors_enabled := v \<rparr>)) ! 20
      = bool_to_char (past_end inp) v" for v
    using fill_send_buf_mask [of "s\<lparr> new_motor_enables := True, motors_enabled := v \<rparr>"
        "cfg\<lparr> number_of_joints := 5 \<rparr>" inp]
    by simp
  show ?thesis
    by (simp add: case_prod_beta length_fill_send_buf fill_send_buf_new_contents m a b)
qed

text \<open>
  C2. For a received frame of at least \<open>12N+1\<close> bytes, position \<open>i\<close> is the big-endian
  float32 at offset \<open>4*i\<close>, velocity \<open>i\<close> the one at \<open>4N+4*i\<close>, effort \<open>i\<close> the one at
  \<open>8N+4*i\<close>, each widened to a double. The receive buffer must hold a whole frame and the
  three vectors at least \<open>N\<close> elements, as they do after \<open>connect\<close>.
\<close>

theorem C2_decode_layout:
  assumes "error = success \<or> error = message_size"
    and "12 * number_of_joints cfg + 1 \<le> length frame"
    and "12 * number_of_joints cfg + 1 \<le> length (rcv_buf s)"
    and "i < number_of_joints cfg"
    and "number_of_joints cfg \<le> length (joint_positions s)"
    and "number_of_joints cfg \<le> length (joint_velocities s)"
    and "number_of_joints cfg \<le> length (joint_efforts s)"
  shows "joint_positions (run_one cfg (ReceiveDone error frame) s) ! i
           = float_to_double (be_float32 frame (4 * i)) \<and>
         joint_velocities (run_one cfg (ReceiveDone error frame) s) ! i
           = float_to_double (be_float32 frame (4 * number_of_joints cfg + 4 * i)) \<and>
         joint_efforts (run_one cfg (ReceiveDone error frame) s) ! i
           = float_to_double (be_float32 frame (8 * number_of_joints cfg + 4 * i))"
proof -
  let ?n = "number_of_joints cfg"
  let ?B = "deliver frame (rcv_buf s)"
  have dec: "decode_block ?B ?n off v ! i = float_to_double (be_float32 frame k)"
    if "i < length v" and "i * FLOAT_LENGTH + off = k"
      and "k + 3 < length frame" and "k + 3 < length (rcv_buf s)" for off v k
  proof -
    have "decode_block ?B ?n off v ! i = binary_to_double ?B (i * FLOAT_LENGTH + off)"
      using nth_decode_block [OF that(1), of ?B ?n off] assms(4) by simp
    also have "\<dots> = float_to_double (be_float32 ?B k)"
      by (simp only: that(2) binary_to_double_be)
    also have "be_float32 ?B k = be_float32 frame k"
      using that(3,4) by (rule be_float32_deliver)
    finally show ?thesis .
  qed
  have s': "run_one cfg (ReceiveDone error frame) s = (applied cfg ?B s)\<lparr> s_ec := error, rcv_buf := ?B \<rparr>"
    using assms(1) by (auto simp add: run_one_def handle_receive_eq applied_def)
  have "joint_positions (run_one cfg (ReceiveDone error frame) s) ! i
      = float_to_double (be_float32 frame (4 * i))"
    unfolding s' using assms by (simp add: applied_def dec FLOAT_LENGTH_def ac_simps)
  moreover have "joint_velocities (run_one cfg (ReceiveDone error frame) s) ! i
      = float_to_double (be_float32 frame (4 * ?n + 4 * i))"
    unfolding s' using assms by (simp add: applied_def dec FLOAT_LENGTH_def ac_simps)
  moreover have "joint_efforts (run_one cfg (ReceiveDone error frame) s) ! i
      = float_to_double (be_float32 frame (8 * ?n + 4 * i))"
    unfolding s' using assms by (simp add: applied_def dec FLOAT_LENGTH_def ac_simps)
  ultimately show ?thesis by simp
qed

text \<open>
  Five joints and the 61-byte frame whose positions are all 1.5, received by the driver
  after \<open>connect\<close>: the five positions are 1.5. The vector has a sixth element, which the
  frame does not touch.
\<close>

theorem C2_decode_layout_witness:
  "12 * number_of_joints davinci + 1 \<le> length frame_1_5 \<and>
   12 * number_of_joints davinci + 1 \<le> length (rcv_buf fresh) \<and>
   number_of_joints davinci \<le> length (joint_positions fresh) \<and>
   be_float32 frame_1_5 (4 * 4) = 0x3FC00000 \<and>
   joint_positions (run_one davinci (ReceiveDone success frame_1_5) fresh) ! 4 = DFinite False (3 / 2) \<and>
   joint_positions (run_one davinci (ReceiveDone success frame_1_5) fresh) =
     [DFinite False (3 / 2), DFinite False (3 / 2), DFinite False (3 / 2), DFinite False (3 / 2),
      DFinite False (3 / 2), DFinite False 0]"
proof -
  have h: "12 * number_of_joints davinci + 1 \<le> length frame_1_5"
     "12 * number_of_joints davinci + 1 \<le> length (rcv_buf fresh)"
     "number_of_joints davinci \<le> length (joint_positions fresh)"
     "number_of_joints davinci \<le> length (joint_velocities fresh)"
     "number_of_joints davinci \<le> length (joint_efforts fresh)"
     "4 < number_of_joints davinci"
    by (simp_all add: davinci_def fresh_def frame_1_5_def zeros_61_def)
  have b: "be_float32 frame_1_5 (4 * 4) = 0x3FC00000"
    by (simp add: be_float32_def frame_1_5_def)
  have d: "binary_to_double frame_1_5 0 = DFinite False (3 / 2)"
    "binary_to_double frame_1_5 4 = DFinite False (3 / 2)"
    "binary_to_double frame_1_5 8 = DFinite False (3 / 2)"
    "binary_to_double frame_1_5 12 = DFinite False (3 / 2)"
    "binary_to_double frame_1_5 16 = DFinite False (3 / 2)"
    by (simp_all add: binary_to_double_def frame_1_5_def bytes_float_def f32_1_5)
  have p: "joint_positions (run_one davinci (ReceiveDone success frame_1_5) fresh) =
     [DFinite False (3 / 2), DFinite False (3 / 2), DFinite False (3 / 2), DFinite False (3 / 2),
      DFinite False (3 / 2), DFinite False 0]"
    using d
    by (simp add: run_one_def handle_receive_eq fresh_def davinci_def deliver_frame_1_5
        decode_block_def FLOAT_LENGTH_def upt_rec zero_double_def numeral_eq_Suc)
  from C2_decode_layout [OF _ h(1,2,6,3,4,5), of success]
  have "joint_positions (run_one davinci (ReceiveDone success frame_1_5) fresh) ! 4
      = float_to_double (be_float32 frame_1_5 (4 * 4))"
    by simp
  then show ?thesis
    using h(1,2,3) b p by (simp only: f32_1_5 simp_thms)
qed

text \<open>
  C3. Unpacking the byte produced by packing a vector of flags gives the flags back.

  The code does not do this: packing \<open>[True, False]\<close> and unpacking the byte gives
  \<open>[False, past]\<close> in the local vector of \<open>_char_to_bool\<close>, whatever bit \<open>past\<close> lies
  behind the packed vector, and the vector of the caller is not changed at all.
\<close>

theorem C3_round_trip_loses_first_flag:
  "char_to_bool_local sg (bool_to_char past [True, False]) [x, y] = [False, past] \<and>
   char_to_bool sg (bool_to_char past [True, False]) [x, y] = [x, y]"
  by (simp add: bool_to_char_def char_to_bool_def char_to_bool_local_def char_shift_right_def
      vec_at_def upt_rec)

text \<open>
  C4. Applying a received frame overwrites the shared active flags with the bits of the
  frame's bitmask byte.

  The code does not do this: \<open>_char_to_bool\<close> takes the vector by value, so
  \<open>motors_active\<close> is the same before and after every completed receive.
\<close>

theorem C4_active_flags_never_written:
  "motors_active (run_one cfg (ReceiveDone error data) s) = motors_active s \<and>
   motors_active (handle_receive cfg error s) = motors_active s \<and>
   char_to_bool sg c v = v"
  by (simp add: run_one_def handle_receive_eq char_to_bool_def)

text \<open>
  C5, as the specification states it: a datagram shorter than \<open>12N+1\<close> bytes is rejected,
  the joint state stays as it was and the miss counter is not reset. The code has no such
  check. After three silent passes a datagram of 5 bytes arrives without error: position 0
  becomes 1.5 and the counter goes from 3 to 0.
\<close>

theorem C5_short_frame_counterexample:
  "length short_frame < 12 * number_of_joints davinci + 1 \<and>
   loop_body davinci (tick [CheckDeadline, ReceiveDone success short_frame]) (missed 3 fresh) =
     Some ([], (missed 3 fresh)\<lparr> s_ec := success, rcv_buf := short_frame @ drop 5 zeros_61,
        joint_positions := [DFinite False (3 / 2), DFinite False 0, DFinite False 0,
           DFinite False 0, DFinite False 0, DFinite False 0],
        s_no_packet_received := 0 \<rparr>) \<and>
   joint_positions (missed 3 fresh) = [DFinite False 0, DFinite False 0, DFinite False 0,
           DFinite False 0, DFinite False 0, DFinite False 0] \<and>
   s_no_packet_received (missed 3 fresh) = 3"
proof -
  have h: "handlers (tick [CheckDeadline, ReceiveDone success short_frame])
      = replicate 1 CheckDeadline @ ReceiveDone success short_frame # []"
    by (simp add: tick_def)
  have b: "deliver short_frame zeros_61 = short_frame @ drop 5 zeros_61"
    by (simp add: deliver_def short_frame_def zeros_61_def)
  have r: "replicate 6 zero_double = [DFinite False 0, DFinite False 0, DFinite False 0,
           DFinite False 0, DFinite False 0, DFinite False 0]"
    by (simp add: zero_double_def numeral_eq_Suc)
  have a: "applied davinci (short_frame @ drop 5 zeros_61) (missed 3 fresh) =
      (missed 3 fresh)\<lparr> joint_positions := [DFinite False (3 / 2), DFinite False 0, DFinite False 0,
           DFinite False 0, DFinite False 0, DFinite False 0] \<rparr>"
    by (simp add: applied_def missed_3_fresh davinci_def r decode_block_5 FLOAT_LENGTH_def
        short_frame_decoded)
  have l: "length short_frame < 12 * number_of_joints davinci + 1"
    by (simp add: short_frame_def davinci_def)
  have m: "new_setpoints (missed 3 fresh) = False" "new_motor_enables (missed 3 fresh) = False"
    "rcv_buf (missed 3 fresh) = zeros_61" "joint_positions (missed 3 fresh) = replicate 6 zero_double"
    "s_no_packet_received (missed 3 fresh) = 3"
    by (simp_all add: missed_3_fresh)
  show ?thesis
    using l by (simp add: loop_body_completes [OF h] m b a r)
qed

text \<open>
  C5, as the code has it: a datagram shorter than \<open>12N+1\<close> bytes that is received without
  error is decoded like any other. \<open>_handle_receive\<close> does not look at the number of bytes:
  positions, velocities and efforts are read from the receive buffer, which holds the
  bytes of the datagram followed by the bytes that earlier datagrams left there; the pass
  returns, and the miss counter is reset to 0. The active flags are not changed.
\<close>

theorem C5_short_frame_is_decoded:
  assumes "handlers inp = replicate k CheckDeadline @ ReceiveDone success data # rest"
    and "length data < 12 * number_of_joints cfg + 1"
    and "12 * number_of_joints cfg + 1 \<le> length (rcv_buf s)"
  shows "\<exists>sent s'. loop_body cfg inp s = Some (sent, s') \<and>
      s_ec s' = success \<and>
      rcv_buf s' = data @ drop (length data) (rcv_buf s) \<and>
      joint_positions s' = decode_block (rcv_buf s') (number_of_joints cfg) 0 (joint_positions s) \<and>
      joint_velocities s' = decode_block (rcv_buf s') (number_of_joints cfg)
         (FLOAT_LENGTH * number_of_joints cfg) (joint_velocities s) \<and>
      joint_efforts s' = decode_block (rcv_buf s') (number_of_joints cfg)
         (FLOAT_LENGTH * number_of_joints cfg * 2) (joint_efforts s) \<and>
      motors_active s' = motors_active s \<and>
      s_no_packet_received s' = 0"
proof -
  have "deliver data (rcv_buf s) = data @ drop (length data) (rcv_buf s)"
    using assms(2,3) by (simp add: deliver_def)
  then show ?thesis
    by (simp add: loop_body_completes [OF assms(1)] applied_def)
qed

text \<open>After three silent passes a datagram of 4 bytes arrives: position 0 becomes -1.5.\<close>

theorem C5_short_frame_is_decoded_witness:
  "handlers (tick [CheckDeadline, ReceiveDone success tiny_frame])
      = replicate 1 CheckDeadline @ ReceiveDone success tiny_frame # [] \<and>
   length tiny_frame < 12 * number_of_joints davinci + 1 \<and>
   12 * number_of_joints davinci + 1 \<le> length (rcv_buf (missed 3 fresh)) \<and>
   (\<exists>sent s'. loop_body davinci (tick [CheckDeadline, ReceiveDone success tiny_frame]) (missed 3 fresh)
        = Some (sent, s') \<and>
      joint_positions s' = [DFinite True (3 / 2), DFinite False 0, DFinite False 0,
           DFinite False 0, DFinite False 0, DFinite False 0] \<and>
      s_no_packet_received s' = 0)"
proof -
  have h: "handlers (tick [CheckDeadline, ReceiveDone success tiny_frame])
      = replicate 1 CheckDeadline @ ReceiveDone success tiny_frame # []"
    by (simp add: tick_def)
  have l: "length tiny_frame < 12 * number_of_joints davinci + 1"
    by (simp add: tiny_frame_def davinci_def)
  have r: "12 * number_of_joints davinci + 1 \<le> length (rcv_buf (missed 3 fresh))"
    by (simp add: missed_3_fresh davinci_def zeros_61_def)
  have z: "replicate 6 zero_double = [DFinite False 0, DFinite False 0, DFinite False 0,
           DFinite False 0, DFinite False 0, DFinite False 0]"
    by (simp add: zero_double_def numeral_eq_Suc)
  have t: "length tiny_frame = 4"
    by (simp add: tiny_frame_def)
  have d: "decode_block (tiny_frame @ drop (length tiny_frame) (rcv_buf (missed 3 fresh)))
        (number_of_joints davinci) 0 (joint_positions (missed 3 fresh))
      = [DFinite True (3 / 2), DFinite False 0, DFinite False 0,
           DFinite False 0, DFinite False 0, DFinite False 0]"
    by (simp add: missed_3_fresh davinci_def z t decode_block_5 tiny_frame_decoded)
  from C5_short_frame_is_decoded [OF h l r] obtain sent s' where
    "loop_body davinci (tick [CheckDeadline, ReceiveDone success tiny_frame]) (missed 3 fresh)
        = Some (sent, s')"
    "joint_positions s' = decode_block (tiny_frame @ drop (length tiny_frame) (rcv_buf (missed 3 fresh)))
        (number_of_joints davinci) 0 (joint_positions (missed 3 fresh))"
    "s_no_packet_received s' = 0"
    by auto
  with h l r d show ?thesis by (simp only: simp_thms) blast
qed

text \<open>
  C6 speaks of elapsed time and of the order in which the io_service runs the timer and
  the receive. The model has neither a clock nor the reactor: \<open>wait_loop\<close> returns exactly
  when a handler that sets an error code other than \<open>would_block\<close> becomes ready
  (\<open>wait_loop_completes\<close>), and whether one does is decided outside the driver.
\<close>

text \<open>
  C7, as the specification states it: the miss counter is reset exactly in the passes in
  which data is applied to the joint state, and no pass applies data and increments the
  counter. In the code a receive that completes with \<open>message_size\<close> does both: the
  positions become 1.5 and the counter goes from 3 to 4.
\<close>

theorem C7_message_size_counterexample:
  "loop_body davinci (tick [CheckDeadline, ReceiveDone message_size (frame_1_5 @ [0xFF])]) (missed 3 fresh) =
     Some ([], (missed 3 fresh)\<lparr> s_ec := message_size, rcv_buf := frame_1_5,
        joint_positions := [DFinite False (3 / 2), DFinite False (3 / 2), DFinite False (3 / 2),
           DFinite False (3 / 2), DFinite False (3 / 2), DFinite False 0],
        s_no_packet_received := 4 \<rparr>) \<and>
   joint_positions (missed 3 fresh) = [DFinite False 0, DFinite False 0, DFinite False 0,
           DFinite False 0, DFinite False 0, DFinite False 0] \<and>
   s_no_packet_received (missed 3 fresh) = 3"
proof -
  have h: "handlers (tick [CheckDeadline, ReceiveDone message_size (frame_1_5 @ [0xFF])])
      = replicate 1 CheckDeadline @ ReceiveDone message_size (frame_1_5 @ [0xFF]) # []"
    by (simp add: tick_def)
  have b: "deliver (frame_1_5 @ [0xFF]) zeros_61 = frame_1_5"
    by (simp add: deliver_def frame_1_5_def zeros_61_def)
  have z: "replicate 6 zero_double = [DFinite False 0, DFinite False 0, DFinite False 0,
           DFinite False 0, DFinite False 0, DFinite False 0]"
    by (simp add: zero_double_def numeral_eq_Suc)
  have m: "new_setpoints (missed 3 fresh) = False" "new_motor_enables (missed 3 fresh) = False"
    "rcv_buf (missed 3 fresh) = zeros_61" "joint_positions (missed 3 fresh) = replicate 6 zero_double"
    "s_no_packet_received (missed 3 fresh) = 3"
    by (simp_all add: missed_3_fresh)
  show ?thesis
    by (simp add: loop_body_completes [OF h] m b applied_frame_1_5 z)
qed

text \<open>
  C7, as the code has it: in every pass of the loop, when its receive completes with an
  error code (\<open>operation_aborted\<close> after the deadline), the pass returns, and the miss
  counter is reset to 0 exactly when the receive completed without error and is
  incremented by 1 on every timeout or receive error, \<open>message_size\<close> included.
  Positions, velocities and efforts are overwritten from the receive buffer exactly when
  the receive completed without error or with \<open>message_size\<close>; so a pass whose receive
  completes with \<open>message_size\<close> applies the data and increments the counter. The state
  is one that \<open>connect\<close> leaves: a receive buffer that holds a whole frame and vectors
  of at least \<open>N\<close> elements.
\<close>

theorem C7_counter_follows_error_code:
  assumes "handlers inp = replicate k CheckDeadline @ ReceiveDone error data # rest"
    and "error \<noteq> would_block"
    and "12 * number_of_joints cfg + 1 \<le> length (rcv_buf s)"
    and "number_of_joints cfg \<le> length (joint_positions s)"
    and "number_of_joints cfg \<le> length (joint_velocities s)"
    and "number_of_joints cfg \<le> length (joint_efforts s)"
    and "number_of_joints cfg \<le> length (joint_setpoints s)"
  shows "\<exists>sent s'. loop_body cfg inp s = Some (sent, s') \<and>
     s_ec s' = error \<and>
     s_no_packet_received s' = (if error = success then 0 else s_no_packet_received s + 1) \<and>
     joint_positions s' =
       (if error = success \<or> error = message_size
        then decode_block (deliver data (rcv_buf s)) (number_of_joints cfg) 0 (joint_positions s)
        else joint_positions s) \<and>
     joint_velocities s' =
       (if error = success \<or> error = message_size
        then decode_block (deliver data (rcv_buf s)) (number_of_joints cfg)
               (FLOAT_LENGTH * number_of_joints cfg) (joint_velocities s)
        else joint_velocities s) \<and>
     joint_efforts s' =
       (if error = success \<or> error = message_size
        then decode_block (deliver data (rcv_buf s)) (number_of_joints cfg)
               (FLOAT_LENGTH * number_of_joints cfg * 2) (joint_efforts s)
        else joint_efforts s)"
  by (simp add: loop_body_completes [OF assms(1,2)] applied_def)

text \<open>
  After three silent passes: the 61-byte frame arrives without error, the positions are
  applied and the counter is 0; or no datagram arrives, the positions stay and the counter
  is 4.
\<close>

theorem C7_counter_follows_error_code_witness:
  "12 * number_of_joints davinci + 1 \<le> length (rcv_buf (missed 3 fresh)) \<and>
   number_of_joints davinci \<le> length (joint_positions (missed 3 fresh)) \<and>
   number_of_joints davinci \<le> length (joint_velocities (missed 3 fresh)) \<and>
   number_of_joints davinci \<le> length (joint_efforts (missed 3 fresh)) \<and>
   number_of_joints davinci \<le> length (joint_setpoints (missed 3 fresh)) \<and>
   s_no_packet_received (missed 3 fresh) = 3 \<and>
   (\<exists>sent s'. loop_body davinci (tick [CheckDeadline, ReceiveDone success frame_1_5]) (missed 3 fresh)
        = Some (sent, s') \<and>
      s_ec s' = success \<and> s_no_packet_received s' = 0 \<and>
      joint_positions s' = [DFinite False (3 / 2), DFinite False (3 / 2), DFinite False (3 / 2),
           DFinite False (3 / 2), DFinite False (3 / 2), DFinite False 0]) \<and>
   (\<exists>sent s'. loop_body davinci (tick silent) (missed 3 fresh) = Some (sent, s') \<and>
      s_ec s' = operation_aborted \<and> s_no_packet_received s' = 4 \<and>
      joint_positions s' = joint_positions (missed 3 fresh))"
proof -
  have h1: "handlers (tick [CheckDeadline, ReceiveDone success frame_1_5])
      = replicate 1 CheckDeadline @ ReceiveDone success frame_1_5 # []"
    by (simp add: tick_def)
  have h2: "handlers (tick silent) = replicate 2 CheckDeadline @ ReceiveDone operation_aborted [] # []"
    by (simp add: tick_def silent_def numeral_eq_Suc)
  have e: "success \<noteq> would_block" "operation_aborted \<noteq> would_block"
    by simp_all
  have l: "12 * number_of_joints davinci + 1 \<le> length (rcv_buf (missed 3 fresh))"
    "number_of_joints davinci \<le> length (joint_positions (missed 3 fresh))"
    "number_of_joints davinci \<le> length (joint_velocities (missed 3 fresh))"
    "number_of_joints davinci \<le> length (joint_efforts (missed 3 fresh))"
    "number_of_joints davinci \<le> length (joint_setpoints (missed 3 fresh))"
    by (simp_all add: missed_3_fresh davinci_def zeros_61_def)
  have c: "s_no_packet_received (missed 3 fresh) = 3"
    by (simp add: missed_3_fresh)
  have z: "replicate 6 zero_double = [DFinite False 0, DFinite False 0, DFinite False 0,
           DFinite False 0, DFinite False 0, DFinite False 0]"
    by (simp add: zero_double_def numeral_eq_Suc)
  have p: "decode_block (deliver frame_1_5 (rcv_buf (missed 3 fresh))) (number_of_joints davinci) 0
        (joint_positions (missed 3 fresh))
      = [DFinite False (3 / 2), DFinite False (3 / 2), DFinite False (3 / 2),
           DFinite False (3 / 2), DFinite False (3 / 2), DFinite False 0]"
    by (simp add: missed_3_fresh davinci_def deliver_frame_1_5 z decode_block_5 frame_1_5_decoded)
  from C7_counter_follows_error_code [OF h1 e(1) l]
  have 1: "\<exists>sent s'. loop_body davinci (tick [CheckDeadline, ReceiveDone success frame_1_5]) (missed 3 fresh)
        = Some (sent, s') \<and>
      s_ec s' = success \<and> s_no_packet_received s' = 0 \<and>
      joint_positions s' = [DFinite False (3 / 2), DFinite False (3 / 2), DFinite False (3 / 2),
           DFinite False (3 / 2), DFinite False (3 / 2), DFinite False 0]"
    by (simp add: p) blast
  from C7_counter_follows_error_code [OF h2 e(2) l]
  have 2: "\<exists>sent s'. loop_body davinci (tick silent) (missed 3 fresh) = Some (sent, s') \<and>
      s_ec s' = operation_aborted \<and> s_no_packet_received s' = 4 \<and>
      joint_positions s' = joint_positions (missed 3 fresh)"
    by (simp add: c) blast
  from l c 1 2 show ?thesis
    by (simp only: simp_thms)
qed

text \<open>
  C8. Once \<open>connect\<close> has succeeded \<open>_connected\<close> is true, and it is true after any number
  of passes of the loop, whatever they receive. (Nothing in the source ever sets it back,
  the destructor included.)
\<close>

theorem C8_connected_persists:
  assumes "connect cfg stray success s = Some s0"
    and "loop cfg inps s0 = Some (sent, s')"
  shows "s_connected s0 \<and> s_connected s'"
proof -
  have "s_connected s0"
    by (subst connect_Some [OF assms(1)]) simp
  with loop_connected [OF assms(2)] show ?thesis by simp
qed

text \<open>
  Twenty-five silent passes after \<open>connect\<close>: one datagram was sent, the miss counter
  is 25 and \<open>_connected\<close> is true.
\<close>

theorem C8_connected_persists_witness:
  "connect davinci (Some []) success (SbrioDriver_UDP zeros_61) = Some fresh \<and>
   loop davinci (replicate 25 (tick silent)) fresh = Some ([frame_0], missed 25 fresh) \<and>
   s_connected fresh \<and>
   s_connected (missed 25 fresh) \<and>
   s_no_packet_received (missed 25 fresh) = 25"
proof -
  have "s_no_packet_received (missed 25 fresh) = 25"
    by (simp add: missed_def fresh_def)
  with connect_fresh silent_25 C8_connected_persists [OF connect_fresh silent_25]
  show ?thesis by simp
qed

text \<open>
  C9. After \<open>connect\<close> each per-joint array holds exactly \<open>N\<close> elements.

  The code does not do this: the loop of \<open>connect\<close> runs \<open>NUMBER_OF_JOINTS+1\<close> times.
  On a new driver either the process dies in the loop, at the read past the end of
  \<open>names_list\<close> (which five joints reach), or positions, velocities and efforts hold
  \<open>N+1\<close> elements (6 for five joints) while setpoints, enables and active flags hold 5.
\<close>

theorem C9_connect_lengths:
  "(case connect cfg stray error (SbrioDriver_UDP rcv0) of
      None \<Rightarrow> stray = None \<and> length names_list \<le> number_of_joints cfg
    | Some s' \<Rightarrow>
        length (joint_positions s') = number_of_joints cfg + 1 \<and>
        length (joint_velocities s') = number_of_joints cfg + 1 \<and>
        length (joint_efforts s') = number_of_joints cfg + 1 \<and>
        length (joint_setpoints s') = 5 \<and>
        length (motors_enabled s') = 5 \<and>
        length (motors_active s') = 5)"
proof (cases "connect cfg stray error (SbrioDriver_UDP rcv0)")
  case None
  have "stray = None \<and> length names_list \<le> number_of_joints cfg"
  proof (rule ccontr)
    assume "\<not> (stray = None \<and> length names_list \<le> number_of_joints cfg)"
    then have "\<forall>i\<le>number_of_joints cfg. read_name stray i \<noteq> None"
      by (auto simp add: read_name_def)
    from connect_returns [OF this, of error "SbrioDriver_UDP rcv0"] None show False
      by simp
  qed
  with None show ?thesis by simp
next
  case (Some s')
  note e = connect_Some [OF Some]
  have "length (joint_positions s') = number_of_joints cfg + 1"
    and "length (joint_velocities s') = number_of_joints cfg + 1"
    and "length (joint_efforts s') = number_of_joints cfg + 1"
    and "length (joint_setpoints s') = 5"
    and "length (motors_enabled s') = 5"
    and "length (motors_active s') = 5"
    by (subst e, simp add: SbrioDriver_UDP_def)+
  with Some show ?thesis by simp
qed



end
